theory Spec2Isabelle
  imports Main "HOL-Library.Word"
begin

section \<open>A reference-counted shared pointer (mine\_shared\_prt.cc)\<close>

text \<open>
  The class template \<open>shared_ptr<T>\<close> has two fields, \<open>T* _ptr\<close> and
  \<open>std::atomic<std::size_t>* _ref_count\<close>. Both are pointers into the free store, so the
  model keeps an explicit store: the instances (keyed by their own address, which is what
  \<open>this != &other\<close> compares), the live control blocks with their counter values, and a
  trace of the deallocations performed so far, in program order.

  The operations are modelled for one thread of control: \<open>fetch_add\<close>, \<open>fetch_sub\<close> and
  \<open>load\<close> are single steps on the counter, and the memory-order arguments have no
  counterpart here.

  Destroying the managed object runs the destructor of the element type, which can end the
  lifetime of instances stored inside that object and release what they own. That
  destructor is a parameter of \<open>release\<close> and of every operation that calls it; an
  instance whose lifetime has ended is no longer in the store, and reading or writing it
  is undefined.
\<close>

subsection \<open>Data\<close>

type_synonym addr = nat

text \<open>A raw pointer value: \<open>nullptr\<close> or the address of a heap cell.\<close>

datatype pointer = Null | Addr addr

text \<open>\<open>std::size_t\<close>, taken as 64 bits wide; \<open>fetch_add\<close> and \<open>fetch_sub\<close> wrap around.\<close>

type_synonym size_t = "64 word"

record shared_ptr =
  ptr :: pointer
  ref_count :: pointer

text \<open>
  \<open>Delete_Object p\<close>: the call \<open>std::default_delete<T>{}(_ptr)\<close> on the non-null address
  \<open>p\<close> has run the destructor of the object and given its storage back.
  \<open>Delete_Counter c\<close>: \<open>delete _ref_count\<close> has freed the control block at \<open>c\<close>.
\<close>

datatype event = Delete_Object addr | Delete_Counter addr

record heap =
  insts :: "addr \<rightharpoonup> shared_ptr"
  counters :: "addr \<rightharpoonup> size_t"
  trace :: "event list"

text \<open>
  What a member function does: it returns, leaving a heap; or \<open>new\<close> throws
  \<open>std::bad_alloc\<close>, which leaves the function with the heap as it is at that point; or it
  reads through a pointer to storage that is not live (no instance at \<open>this\<close>, a control
  block already freed), which C++ leaves undefined.
\<close>

datatype outcome = Returns heap | Bad_Alloc heap | Undefined

text \<open>
  The element type \<open>T\<close> is the template argument, so its destructor is not part of the
  source. It is a parameter of the model: \<open>D x h\<close> is what running \<open>~T()\<close> on the object
  at address \<open>x\<close> makes of the heap \<open>h\<close>, and \<open>None\<close> when that destructor itself has
  undefined behaviour. For a \<open>T\<close> with a trivial destructor \<open>D\<close> is \<open>trivial_dtor\<close>; for
  a \<open>T\<close> with \<open>shared_ptr\<close> members (a list node holding the pointer to the next node)
  \<open>D\<close> runs \<open>~shared_ptr()\<close> on them, which ends their lifetime and may release further
  objects.
\<close>

type_synonym dtor = "addr \<Rightarrow> heap \<Rightarrow> heap option"

definition trivial_dtor :: dtor where
  "trivial_dtor x h = Some h"

subsection \<open>The atomic counter and the two deallocations\<close>

text \<open>\<open>_ref_count->fetch_sub(1, ...)\<close>: the old value and the heap with the counter decremented.\<close>

definition fetch_sub :: "heap \<Rightarrow> addr \<Rightarrow> (size_t \<times> heap) option" where
  "fetch_sub h c =
     (case counters h c of
        None \<Rightarrow> None
      | Some n \<Rightarrow> Some (n, h\<lparr>counters := (counters h)(c \<mapsto> n - 1)\<rparr>))"

text \<open>\<open>_ref_count->fetch_add(1, ...)\<close>; the source discards the returned old value.\<close>

definition fetch_add :: "heap \<Rightarrow> addr \<Rightarrow> heap option" where
  "fetch_add h c =
     (case counters h c of
        None \<Rightarrow> None
      | Some n \<Rightarrow> Some (h\<lparr>counters := (counters h)(c \<mapsto> n + 1)\<rparr>))"

text \<open>
  \<open>std::default_delete<T>{}(p)\<close>: deleting a null pointer does nothing; otherwise the
  destructor of the object runs and then its storage is given back.
\<close>

definition default_delete :: "dtor \<Rightarrow> pointer \<Rightarrow> heap \<Rightarrow> heap option" where
  "default_delete D p h =
     (case p of
        Null \<Rightarrow> Some h
      | Addr x \<Rightarrow>
          (case D x h of
             None \<Rightarrow> None
           | Some h2 \<Rightarrow> Some (h2\<lparr>trace := trace h2 @ [Delete_Object x]\<rparr>)))"

text \<open>
  \<open>delete r\<close> for a pointer \<open>r\<close> to a control block: nothing for a null pointer, undefined
  for a block that is not live.
\<close>

definition delete_counter :: "pointer \<Rightarrow> heap \<Rightarrow> heap option" where
  "delete_counter r h =
     (case r of
        Null \<Rightarrow> Some h
      | Addr c \<Rightarrow>
          if c \<in> dom (counters h)
          then Some (h\<lparr>counters := (counters h)(c := None),
                       trace := trace h @ [Delete_Counter c]\<rparr>)
          else None)"

text \<open>
  \<open>new std::atomic<std::size_t>(1)\<close>. The allocator is outside the program, so its answer
  is an argument: \<open>None\<close> when it throws \<open>std::bad_alloc\<close>, \<open>Some c\<close> when it hands
  out the block at address \<open>c\<close>.
\<close>

definition new_counter :: "heap \<Rightarrow> addr option \<Rightarrow> (addr \<times> heap) option" where
  "new_counter h al =
     (case al of
        None \<Rightarrow> None
      | Some c \<Rightarrow> Some (c, h\<lparr>counters := (counters h)(c \<mapsto> 1)\<rparr>))"

text \<open>
  Writing the two fields of the instance at \<open>this\<close>. The member functions below call
  them only where that instance is known to be alive.
\<close>

definition set_ptr :: "addr \<Rightarrow> pointer \<Rightarrow> heap \<Rightarrow> heap" where
  "set_ptr this p h =
     (case insts h this of
        None \<Rightarrow> h
      | Some s \<Rightarrow> h\<lparr>insts := (insts h)(this \<mapsto> s\<lparr>ptr := p\<rparr>)\<rparr>)"

definition set_ref_count :: "addr \<Rightarrow> pointer \<Rightarrow> heap \<Rightarrow> heap" where
  "set_ref_count this r h =
     (case insts h this of
        None \<Rightarrow> h
      | Some s \<Rightarrow> h\<lparr>insts := (insts h)(this \<mapsto> s\<lparr>ref_count := r\<rparr>)\<rparr>)"

subsection \<open>The member functions\<close>

text \<open>
  \<open>void release()\<close>, lines 41--50. The argument \<open>_ptr\<close> of the deleter is read before the
  destructor of the object runs; \<open>_ref_count\<close> in \<open>delete _ref_count\<close> is read from the
  instance after it, which is undefined when that destructor has ended the lifetime of the
  instance.
\<close>

definition release :: "dtor \<Rightarrow> heap \<Rightarrow> addr \<Rightarrow> outcome" where
  "release D h this =
     (case insts h this of
        None \<Rightarrow> Undefined
      | Some s \<Rightarrow>
          (case ref_count s of
             Null \<Rightarrow> Returns h
           | Addr c \<Rightarrow>
               (case fetch_sub h c of
                  None \<Rightarrow> Undefined
                | Some (old, h1) \<Rightarrow>
                    if old = 1
                    then (case default_delete D (ptr s) h1 of
                            None \<Rightarrow> Undefined
                          | Some h2 \<Rightarrow>
                              (case insts h2 this of
                                 None \<Rightarrow> Undefined
                               | Some s2 \<Rightarrow>
                                   (case delete_counter (ref_count s2) h2 of
                                      None \<Rightarrow> Undefined
                                    | Some h3 \<Rightarrow> Returns h3)))
                    else Returns h1)))"

text \<open>\<open>shared_ptr()\<close>, lines 54--56: a new instance at \<open>this\<close>.\<close>

definition shared_ptr_default :: "heap \<Rightarrow> addr \<Rightarrow> outcome" where
  "shared_ptr_default h this =
     Returns (h\<lparr>insts := (insts h)(this \<mapsto> \<lparr>ptr = Null, ref_count = Null\<rparr>)\<rparr>)"

text \<open>
  \<open>explicit shared_ptr(T* p)\<close>, lines 62--69. When \<open>new\<close> throws, the constructor is
  left by the exception and no instance comes into being; nothing in its body runs after
  the throw.
\<close>

definition shared_ptr_raw :: "heap \<Rightarrow> addr \<Rightarrow> pointer \<Rightarrow> addr option \<Rightarrow> outcome" where
  "shared_ptr_raw h this p al =
     (if p \<noteq> Null
      then (case new_counter h al of
              None \<Rightarrow> Bad_Alloc h
            | Some (c, h1) \<Rightarrow>
                Returns (h1\<lparr>insts := (insts h1)(this \<mapsto> \<lparr>ptr = p, ref_count = Addr c\<rparr>)\<rparr>))
      else Returns (h\<lparr>insts := (insts h)(this \<mapsto> \<lparr>ptr = p, ref_count = Null\<rparr>)\<rparr>))"

text \<open>\<open>~shared_ptr()\<close>, lines 72--74: \<open>release\<close>, then the instance is gone.\<close>

definition destructor :: "dtor \<Rightarrow> heap \<Rightarrow> addr \<Rightarrow> outcome" where
  "destructor D h this =
     (case release D h this of
        Returns h1 \<Rightarrow> Returns (h1\<lparr>insts := (insts h1)(this := None)\<rparr>)
      | r \<Rightarrow> r)"

text \<open>\<open>shared_ptr(const shared_ptr<T>& other)\<close>, lines 78--86.\<close>

definition copy_construct :: "heap \<Rightarrow> addr \<Rightarrow> addr \<Rightarrow> outcome" where
  "copy_construct h this other =
     (case insts h other of
        None \<Rightarrow> Undefined
      | Some s \<Rightarrow>
          (let h1 = h\<lparr>insts := (insts h)(this \<mapsto> \<lparr>ptr = ptr s, ref_count = ref_count s\<rparr>)\<rparr>
           in case ref_count s of
                Null \<Rightarrow> Returns h1
              | Addr c \<Rightarrow>
                  (case fetch_add h1 c of
                     None \<Rightarrow> Undefined
                   | Some h2 \<Rightarrow> Returns h2)))"

text \<open>
  \<open>operator=(const shared_ptr<T>& other)\<close>, lines 90--104. After \<open>release()\<close> the body
  reads \<open>other\<close> and writes \<open>*this\<close>; either is undefined when the destructor run by
  \<open>release\<close> has ended the lifetime of that instance.
\<close>

definition copy_assign :: "dtor \<Rightarrow> heap \<Rightarrow> addr \<Rightarrow> addr \<Rightarrow> outcome" where
  "copy_assign D h this other =
     (if this \<noteq> other
      then (case release D h this of
              Returns h1 \<Rightarrow>
                if insts h1 this = None then Undefined
                else
                (case insts h1 other of
                   None \<Rightarrow> Undefined
                 | Some s \<Rightarrow>
                     (let h2 = set_ref_count this (ref_count s) (set_ptr this (ptr s) h1)
                      in case ref_count s of
                           Null \<Rightarrow> Returns h2
                         | Addr c \<Rightarrow>
                             (case fetch_add h2 c of
                                None \<Rightarrow> Undefined
                              | Some h3 \<Rightarrow> Returns h3)))
            | r \<Rightarrow> r)
      else Returns h)"

text \<open>\<open>shared_ptr(shared_ptr<T>&& other) noexcept\<close>, lines 110--114.\<close>

definition move_construct :: "heap \<Rightarrow> addr \<Rightarrow> addr \<Rightarrow> outcome" where
  "move_construct h this other =
     (case insts h other of
        None \<Rightarrow> Undefined
      | Some s \<Rightarrow>
          (let h1 = h\<lparr>insts := (insts h)(this \<mapsto> \<lparr>ptr = ptr s, ref_count = ref_count s\<rparr>)\<rparr>
           in Returns (set_ref_count other Null (set_ptr other Null h1))))"

text \<open>
  \<open>operator=(shared_ptr<T>&& other) noexcept\<close>, lines 117--127; after \<open>release()\<close> it
  reads and writes \<open>other\<close> and writes \<open>*this\<close>.
\<close>

definition move_assign :: "dtor \<Rightarrow> heap \<Rightarrow> addr \<Rightarrow> addr \<Rightarrow> outcome" where
  "move_assign D h this other =
     (if this \<noteq> other
      then (case release D h this of
              Returns h1 \<Rightarrow>
                if insts h1 this = None then Undefined
                else
                (case insts h1 other of
                   None \<Rightarrow> Undefined
                 | Some s \<Rightarrow>
                     (let h2 = set_ref_count this (ref_count s) (set_ptr this (ptr s) h1)
                      in Returns (set_ref_count other Null (set_ptr other Null h2))))
            | r \<Rightarrow> r)
      else Returns h)"

text \<open>
  \<open>use_count()\<close>, lines 143--145, and \<open>get()\<close>, lines 148--150. \<open>None\<close> stands for
  the undefined read (no instance at \<open>this\<close>, or a load from a freed control block).
\<close>

definition use_count :: "heap \<Rightarrow> addr \<Rightarrow> size_t option" where
  "use_count h this =
     (case insts h this of
        None \<Rightarrow> None
      | Some s \<Rightarrow>
          (case ref_count s of
             Null \<Rightarrow> Some 0
           | Addr c \<Rightarrow> counters h c))"

definition get :: "heap \<Rightarrow> addr \<Rightarrow> pointer option" where
  "get h this = map_option ptr (insts h this)"

text \<open>
  \<open>void reset(T* p = nullptr)\<close>, lines 153--157. The three statements run in order:
  \<open>release()\<close>, then \<open>_ptr = p\<close>, then the assignment to \<open>_ref_count\<close>, whose right-hand
  side is evaluated first. When \<open>new\<close> throws there, \<open>_ptr\<close> has been written and
  \<open>_ref_count\<close> has not.
\<close>

definition reset :: "dtor \<Rightarrow> heap \<Rightarrow> addr \<Rightarrow> pointer \<Rightarrow> addr option \<Rightarrow> outcome" where
  "reset D h this p al =
     (case release D h this of
        Returns h1 \<Rightarrow>
          if insts h1 this = None then Undefined
          else
          (let h2 = set_ptr this p h1
           in if p \<noteq> Null
              then (case new_counter h2 al of
                      None \<Rightarrow> Bad_Alloc h2
                    | Some (c, h3) \<Rightarrow> Returns (set_ref_count this (Addr c) h3))
              else Returns (set_ref_count this Null h2))
      | r \<Rightarrow> r)"

subsection \<open>A destructor that destroys \<open>shared_ptr\<close> members\<close>

text \<open>
  The implicit destructor of a \<open>T\<close> whose only resources are \<open>shared_ptr<T>\<close> members:
  \<open>m x\<close> lists the instances stored inside the object at \<open>x\<close>, and destroying the object
  runs \<open>~shared_ptr()\<close> on each of them. A member that is the last owner of its object
  destroys that object in turn; the first argument bounds the depth of that nesting, and
  the result is \<open>None\<close> beyond it, as it is when a member's destructor is undefined.
\<close>

fun destroy_all :: "dtor \<Rightarrow> addr list \<Rightarrow> heap \<Rightarrow> heap option" where
  "destroy_all D [] h = Some h"
| "destroy_all D (a # as) h =
     (case destructor D h a of
        Returns h1 \<Rightarrow> destroy_all D as h1
      | _ \<Rightarrow> None)"

primrec members_dtor :: "nat \<Rightarrow> (addr \<Rightarrow> addr list) \<Rightarrow> dtor" where
  "members_dtor 0 m = (\<lambda>x h. if m x = [] then Some h else None)"
| "members_dtor (Suc k) m = (\<lambda>x h. destroy_all (members_dtor k m) (m x) h)"

subsection \<open>The pairing invariant\<close>

text \<open>
  An instance is either (null, null) or has both fields non-null; \<open>all_paired\<close> says so
  of every instance in the store. A destructor of the element type keeps the invariant
  when from a heap of paired instances it leaves a heap of paired instances.
\<close>

definition paired :: "shared_ptr \<Rightarrow> bool" where
  "paired s = ((ptr s = Null) = (ref_count s = Null))"

definition all_paired :: "heap \<Rightarrow> bool" where
  "all_paired h = (\<forall>a s. insts h a = Some s \<longrightarrow> paired s)"

definition dtor_paired :: "dtor \<Rightarrow> bool" where
  "dtor_paired D = (\<forall>x g g'. all_paired g \<and> D x g = Some g' \<longrightarrow> all_paired g')"

subsection \<open>Some concrete heaps\<close>

text \<open>
  No instance at all.
\<close>

definition empty_heap :: heap where
  "empty_heap = \<lparr>insts = Map.empty, counters = Map.empty, trace = []\<rparr>"

text \<open>
  One default-constructed instance at address 1.
\<close>

definition null_heap :: heap where
  "null_heap =
     \<lparr>insts = [1 \<mapsto> \<lparr>ptr = Null, ref_count = Null\<rparr>], counters = Map.empty, trace = []\<rparr>"

text \<open>
  One instance at address 1, the only owner of the object at 100.
\<close>

definition sole_heap :: heap where
  "sole_heap =
     \<lparr>insts = [1 \<mapsto> \<lparr>ptr = Addr 100, ref_count = Addr 200\<rparr>],
      counters = [200 \<mapsto> 1], trace = []\<rparr>"

text \<open>
  Two instances, at addresses 1 and 2, sharing the object at 100; the counter is 2.
\<close>

definition shared_heap :: heap where
  "shared_heap =
     \<lparr>insts = [1 \<mapsto> \<lparr>ptr = Addr 100, ref_count = Addr 200\<rparr>,
               2 \<mapsto> \<lparr>ptr = Addr 100, ref_count = Addr 200\<rparr>],
      counters = [200 \<mapsto> 2], trace = []\<rparr>"


text \<open>
  Two instances, each the only owner of an object of its own.
\<close>

definition two_heap :: heap where
  "two_heap =
     \<lparr>insts = [1 \<mapsto> \<lparr>ptr = Addr 100, ref_count = Addr 200\<rparr>,
               2 \<mapsto> \<lparr>ptr = Addr 101, ref_count = Addr 201\<rparr>],
      counters = [200 \<mapsto> 1, 201 \<mapsto> 1], trace = []\<rparr>"

text \<open>
  The instance at 1 holding the object at 5 with no control block: what a \<open>reset\<close> of a
  null instance leaves behind when the allocation of the control block fails.
\<close>

definition torn_heap :: heap where
  "torn_heap =
     \<lparr>insts = [1 \<mapsto> \<lparr>ptr = Addr 5, ref_count = Null\<rparr>], counters = Map.empty, trace = []\<rparr>"

text \<open>
  A list of one node: the instance at 1 (the head) is the only owner of the node at 100,
  and the node stores the instance at 2 (its pointer to the next node), which is null.
  \<open>node_members\<close> lists the instances stored in each object.
\<close>

definition node_members :: "addr \<Rightarrow> addr list" where
  "node_members x = (if x = 100 then [2] else [])"

definition list_heap :: heap where
  "list_heap =
     \<lparr>insts = [1 \<mapsto> \<lparr>ptr = Addr 100, ref_count = Addr 200\<rparr>,
               2 \<mapsto> \<lparr>ptr = Null, ref_count = Null\<rparr>],
      counters = [200 \<mapsto> 1], trace = []\<rparr>"

subsection \<open>Two observations\<close>

text \<open>
  After a copy, both instances report the count \<open>k\<close> and hold the pointer \<open>p\<close>;
  after a move from \<open>a\<close> to \<open>b\<close>, \<open>b\<close> holds \<open>p\<close> and \<open>a\<close> is null with
  count 0.
\<close>

abbreviation both_hold :: "heap \<Rightarrow> addr \<Rightarrow> addr \<Rightarrow> size_t \<Rightarrow> pointer \<Rightarrow> bool" where
  "both_hold h' a b k p \<equiv>
     use_count h' a = Some k \<and> use_count h' b = Some k \<and> get h' a = Some p \<and> get h' b = Some p"


section \<open>Properties\<close>

subsection \<open>Auxiliary facts\<close>

lemmas op_defs = release_def fetch_sub_def fetch_add_def default_delete_def delete_counter_def
  new_counter_def set_ptr_def set_ref_count_def

lemma both_fields: "s\<lparr>ptr := p, ref_count := r\<rparr> = \<lparr>ptr = p, ref_count = r\<rparr>"
  by (cases s) simp

text \<open>
  What \<open>release\<close> returns: for a null instance, for an owner that is not the last,
  and for the last owner, whose object is destroyed by \<open>D\<close>.
\<close>

lemma release_null:
  "insts h this = Some s \<Longrightarrow> ref_count s = Null \<Longrightarrow> release D h this = Returns h"
  by (simp add: release_def)

lemma release_keep:
  "insts h this = Some s \<Longrightarrow> ref_count s = Addr c \<Longrightarrow> counters h c = Some n \<Longrightarrow> n \<noteq> 1 \<Longrightarrow>
   release D h this = Returns (h\<lparr>counters := (counters h)(c \<mapsto> n - 1)\<rparr>)"
  by (simp add: release_def fetch_sub_def)

lemma release_last:
  assumes "insts h this = Some s" and "ref_count s = Addr c" and "counters h c = Some 1"
    and "ptr s = Addr p" and "D p (h\<lparr>counters := (counters h)(c \<mapsto> 0)\<rparr>) = Some h2"
    and "insts h2 this = Some s" and "c \<in> dom (counters h2)"
  shows "release D h this =
           Returns (h2\<lparr>counters := (counters h2)(c := None),
                       trace := trace h2 @ [Delete_Object p, Delete_Counter c]\<rparr>)"
  using assms by (auto simp: op_defs)

lemma release_last_null:
  assumes "insts h this = Some s" and "ref_count s = Addr c" and "counters h c = Some 1"
    and "ptr s = Null"
  shows "release D h this =
           Returns (h\<lparr>counters := (counters h)(c := None), trace := trace h @ [Delete_Counter c]\<rparr>)"
  using assms by (auto simp: op_defs)

lemma release_dtor_undefined:
  assumes "insts h this = Some s" and "ref_count s = Addr c" and "counters h c = Some 1"
    and "ptr s = Addr p" and "D p (h\<lparr>counters := (counters h)(c \<mapsto> 0)\<rparr>) = None"
  shows "release D h this = Undefined"
  using assms by (auto simp: op_defs)


lemma release_paired:
  assumes "all_paired h" and "dtor_paired D" and "release D h this = Returns h1"
  shows "all_paired h1"
proof -
  have dec: "all_paired (h\<lparr>counters := f\<rparr>)" for f
    using assms(1) by (simp add: all_paired_def)
  have tr: "all_paired (g\<lparr>trace := t\<rparr>)" if "all_paired g" for g t
    using that by (simp add: all_paired_def)
  have dd: "all_paired g'" if "all_paired g" and "default_delete D q g = Some g'" for g g' q
    using that assms(2) tr
    by (auto simp: default_delete_def dtor_paired_def split: pointer.splits option.splits)
  have dc: "all_paired g'" if "all_paired g" and "delete_counter r g = Some g'" for g g' r
    using that
    by (auto simp: delete_counter_def all_paired_def split: pointer.splits if_splits)
  show ?thesis
  proof (cases "insts h this")
    case None
    with assms(3) show ?thesis by (simp add: release_def)
  next
    case (Some s)
    show ?thesis
    proof (cases "ref_count s")
      case Null
      with Some assms(1,3) show ?thesis by (simp add: release_def)
    next
      case (Addr c)
      show ?thesis
      proof (cases "counters h c")
        case None
        with Some Addr assms(3) show ?thesis by (simp add: release_def fetch_sub_def)
      next
        case (Some n)
        let ?hd = "h\<lparr>counters := (counters h)(c \<mapsto> n - 1)\<rparr>"
        show ?thesis
        proof (cases "n = 1")
          case False
          with \<open>insts h this = Some s\<close> Addr Some assms(3) have "h1 = ?hd"
            by (simp add: release_def fetch_sub_def)
          with dec show ?thesis by simp
        next
          case True
          with \<open>insts h this = Some s\<close> Addr Some assms(3)
          obtain h2 s2 where d: "default_delete D (ptr s) ?hd = Some h2"
            and i: "insts h2 this = Some s2"
            and f: "delete_counter (ref_count s2) h2 = Some h1"
            by (auto simp: release_def fetch_sub_def split: option.splits)
          from dd [OF dec d] have "all_paired h2" .
          from dc [OF this f] show ?thesis .
        qed
      qed
    qed
  qed
qed

text \<open>
  The assignments and \<open>reset\<close>, from the heap their \<open>release\<close> returns.
\<close>

lemma copy_assign_after:
  assumes "this \<noteq> other" and "release D h this = Returns h1"
    and "insts h1 this = Some t" and "insts h1 other = Some s"
  shows "ref_count s = Null \<Longrightarrow>
           copy_assign D h this other = Returns (h1\<lparr>insts := (insts h1)(this \<mapsto> s)\<rparr>)"
    and "ref_count s = Addr c \<Longrightarrow> counters h1 c = Some n \<Longrightarrow>
           copy_assign D h this other =
             Returns (h1\<lparr>insts := (insts h1)(this \<mapsto> s),
                         counters := (counters h1)(c \<mapsto> n + 1)\<rparr>)"
proof -
  show "ref_count s = Null \<Longrightarrow>
           copy_assign D h this other = Returns (h1\<lparr>insts := (insts h1)(this \<mapsto> s)\<rparr>)"
    unfolding copy_assign_def assms(2) using assms(1,3,4)
    by (cases s; cases t) (simp add: set_ptr_def set_ref_count_def)
  show "ref_count s = Addr c \<Longrightarrow> counters h1 c = Some n \<Longrightarrow>
           copy_assign D h this other =
             Returns (h1\<lparr>insts := (insts h1)(this \<mapsto> s),
                         counters := (counters h1)(c \<mapsto> n + 1)\<rparr>)"
    unfolding copy_assign_def assms(2) using assms(1,3,4)
    by (cases s; cases t) (simp add: set_ptr_def set_ref_count_def fetch_add_def)
qed


lemma reset_after:
  assumes "release D h this = Returns h1" and "insts h1 this = Some t"
  shows "p = Null \<or> al \<noteq> None \<Longrightarrow> reset D h this p al = shared_ptr_raw h1 this p al"
    and "p \<noteq> Null \<Longrightarrow> reset D h this p None =
           Bad_Alloc (h1\<lparr>insts := (insts h1)(this \<mapsto> t\<lparr>ptr := p\<rparr>)\<rparr>)"
proof -
  show "p = Null \<or> al \<noteq> None \<Longrightarrow> reset D h this p al = shared_ptr_raw h1 this p al"
    unfolding reset_def assms(1) using assms(2)
    by (cases al)
      (auto simp: shared_ptr_raw_def new_counter_def set_ptr_def set_ref_count_def Let_def
        both_fields)
  show "p \<noteq> Null \<Longrightarrow> reset D h this p None =
           Bad_Alloc (h1\<lparr>insts := (insts h1)(this \<mapsto> t\<lparr>ptr := p\<rparr>)\<rparr>)"
    unfolding reset_def assms(1) using assms(2)
    by (simp add: new_counter_def set_ptr_def)
qed

lemma destructor_paired:
  assumes "all_paired h" and "dtor_paired D" and "destructor D h this = Returns h'"
  shows "all_paired h'"
proof -
  from assms(3) obtain h1 where r: "release D h this = Returns h1"
    by (auto simp: destructor_def split: outcome.splits)
  from release_paired [OF assms(1,2) r] assms(3) show ?thesis
    unfolding destructor_def r
    by (auto simp: all_paired_def split: if_splits)
qed

subsection \<open>Release\<close>

text \<open>
  Claim C1. For the instance at \<open>this\<close>, with any destructor \<open>D\<close> of the element
  type: when its control-block pointer is null, \<open>release\<close> returns the heap as it found
  it. When it points to a live control block with counter \<open>n\<close>, the counter is
  decremented. If \<open>n\<close> is not 1 the result is the heap with the decremented counter and
  nothing else changed. If \<open>n\<close> is 1 the managed object is destroyed first (its destructor
  \<open>D\<close> runs, leaving \<open>h2\<close>, then its storage is given back) and the control block is
  freed second; when \<open>D\<close> is undefined there, so is \<open>release\<close>. In particular, when the
  destructor of the object leaves the heap as it is (a trivial destructor), the instances
  are unchanged, the only deallocations are those two, in that order, and a deallocation
  happens if and only if the value before the decrement was 1.
\<close>

theorem release_spec:
  assumes "insts h this = Some s"
  shows "(ref_count s = Null \<longrightarrow> release D h this = Returns h) \<and>
         (\<forall>c n. ref_count s = Addr c \<and> counters h c = Some n \<longrightarrow>
            (n \<noteq> 1 \<longrightarrow>
               release D h this = Returns (h\<lparr>counters := (counters h)(c \<mapsto> n - 1)\<rparr>)) \<and>
            (n = 1 \<and> ptr s = Null \<longrightarrow>
               release D h this =
                 Returns (h\<lparr>counters := (counters h)(c := None),
                            trace := trace h @ [Delete_Counter c]\<rparr>)) \<and>
            (\<forall>p h2. n = 1 \<and> ptr s = Addr p \<and>
                 D p (h\<lparr>counters := (counters h)(c \<mapsto> 0)\<rparr>) = Some h2 \<and>
                 insts h2 this = Some s \<and> c \<in> dom (counters h2) \<longrightarrow>
               release D h this =
                 Returns (h2\<lparr>counters := (counters h2)(c := None),
                             trace := trace h2 @ [Delete_Object p, Delete_Counter c]\<rparr>)) \<and>
            (\<forall>p. n = 1 \<and> ptr s = Addr p \<and>
                 D p (h\<lparr>counters := (counters h)(c \<mapsto> 0)\<rparr>) = None \<longrightarrow>
               release D h this = Undefined) \<and>
            ((\<forall>p. ptr s = Addr p \<longrightarrow>
                 D p (h\<lparr>counters := (counters h)(c \<mapsto> n - 1)\<rparr>) =
                   Some (h\<lparr>counters := (counters h)(c \<mapsto> n - 1)\<rparr>)) \<longrightarrow>
             (\<exists>h'. release D h this = Returns h' \<and> insts h' = insts h \<and>
               (n \<noteq> 1 \<longrightarrow> counters h' = (counters h)(c \<mapsto> n - 1) \<and> trace h' = trace h) \<and>
               (n = 1 \<longrightarrow> counters h' = (counters h)(c := None) \<and>
                  trace h' = trace h @ (case ptr s of Null \<Rightarrow> [] | Addr p \<Rightarrow> [Delete_Object p])
                                     @ [Delete_Counter c]) \<and>
               ((trace h' \<noteq> trace h) = (n = 1)))))"
proof -
  have a: "release D h this = Returns h" if "ref_count s = Null"
    using assms that by (rule release_null)
  have b: "release D h this = Returns (h\<lparr>counters := (counters h)(c \<mapsto> n - 1)\<rparr>)"
    if "ref_count s = Addr c" and "counters h c = Some n" and "n \<noteq> 1" for c n
    using assms that by (rule release_keep)
  have c0: "release D h this =
              Returns (h\<lparr>counters := (counters h)(c := None), trace := trace h @ [Delete_Counter c]\<rparr>)"
    if "ref_count s = Addr c" and "counters h c = Some 1" and "ptr s = Null" for c
    using assms that by (rule release_last_null)
  have c1: "release D h this =
              Returns (h2\<lparr>counters := (counters h2)(c := None),
                          trace := trace h2 @ [Delete_Object p, Delete_Counter c]\<rparr>)"
    if "ref_count s = Addr c" and "counters h c = Some 1" and "ptr s = Addr p"
      and "D p (h\<lparr>counters := (counters h)(c \<mapsto> 0)\<rparr>) = Some h2"
      and "insts h2 this = Some s" and "c \<in> dom (counters h2)" for c p h2
    using assms that by (rule release_last)
  have u: "release D h this = Undefined"
    if "ref_count s = Addr c" and "counters h c = Some 1" and "ptr s = Addr p"
      and "D p (h\<lparr>counters := (counters h)(c \<mapsto> 0)\<rparr>) = None" for c p
    using assms that by (rule release_dtor_undefined)
  have old: "\<exists>h'. release D h this = Returns h' \<and> insts h' = insts h \<and>
               (n \<noteq> 1 \<longrightarrow> counters h' = (counters h)(c \<mapsto> n - 1) \<and> trace h' = trace h) \<and>
               (n = 1 \<longrightarrow> counters h' = (counters h)(c := None) \<and>
                  trace h' = trace h @ (case ptr s of Null \<Rightarrow> [] | Addr p \<Rightarrow> [Delete_Object p])
                                     @ [Delete_Counter c]) \<and>
               ((trace h' \<noteq> trace h) = (n = 1))"
    if rc: "ref_count s = Addr c" and cn: "counters h c = Some n"
      and triv: "\<forall>p. ptr s = Addr p \<longrightarrow>
                 D p (h\<lparr>counters := (counters h)(c \<mapsto> n - 1)\<rparr>) =
                   Some (h\<lparr>counters := (counters h)(c \<mapsto> n - 1)\<rparr>)" for c n
  proof (cases "n = 1")
    case False
    with b [OF rc cn] show ?thesis by simp
  next
    case True
    show ?thesis
    proof (cases "ptr s")
      case Null
      with c0 [OF rc] cn True show ?thesis by simp
    next
      case (Addr p)
      from triv Addr True
      have d: "D p (h\<lparr>counters := (counters h)(c \<mapsto> 0)\<rparr>) = Some (h\<lparr>counters := (counters h)(c \<mapsto> 0)\<rparr>)"
        by simp
      have "release D h this =
              Returns (h\<lparr>counters := (counters h)(c \<mapsto> 0)\<rparr>
                 \<lparr>counters := (counters (h\<lparr>counters := (counters h)(c \<mapsto> 0)\<rparr>))(c := None),
                  trace := trace (h\<lparr>counters := (counters h)(c \<mapsto> 0)\<rparr>) @
                    [Delete_Object p, Delete_Counter c]\<rparr>)"
        using cn True assms
        by (intro c1 [OF rc _ Addr d]) simp_all
      with Addr True show ?thesis by simp
    qed
  qed
  show ?thesis
    using a b c0 c1 u old by blast
qed

theorem release_spec_witness:
  "insts sole_heap 1 = Some \<lparr>ptr = Addr 100, ref_count = Addr 200\<rparr> \<and>
   counters sole_heap 200 = Some 1 \<and>
   (\<exists>h'. release trivial_dtor sole_heap 1 = Returns h' \<and> counters h' 200 = None \<and>
      trace h' = [Delete_Object 100, Delete_Counter 200])"
proof -
  have i: "insts sole_heap 1 = Some \<lparr>ptr = Addr 100, ref_count = Addr 200\<rparr>"
    by (simp add: sole_heap_def)
  have c: "counters sole_heap 200 = Some 1"
    by (simp add: sole_heap_def)
  have t: "trace sole_heap = []"
    by (simp add: sole_heap_def)
  from release_spec [OF i, of trivial_dtor] have
    "\<exists>h'. release trivial_dtor sole_heap 1 = Returns h' \<and>
       counters h' = (counters sole_heap)(200 := None) \<and>
       trace h' = trace sole_heap @ [Delete_Object 100] @ [Delete_Counter 200]"
    using c by (fastforce simp: trivial_dtor_def)
  then show ?thesis using i c t by auto
qed

subsection \<open>Self-assignment\<close>

text \<open>
  Claim C5. Assigning an instance to itself, by copy or by move, returns the heap it was
  given: the test \<open>this != &other\<close> comes first and nothing is read or written when it
  fails. So \<open>use_count\<close> and \<open>get\<close> of the instance are what they were and the trace
  has no new deallocation.
\<close>

theorem self_assignment_noop:
  "copy_assign D h a a = Returns h \<and> move_assign D h a a = Returns h"
  by (simp add: copy_assign_def move_assign_def)

subsection \<open>Copy assignment between two owners of one control block\<close>

text \<open>
  Claim C10. Let \<open>a\<close> and \<open>b\<close> be distinct instances referencing the same control
  block \<open>c\<close>, whose counter \<open>n\<close> is at least 2. Then the \<open>release\<close> inside \<open>a = b\<close>
  leaves the counter at \<open>n - 1\<close>, which is at least 1, and deallocates nothing (no
  destructor runs); and \<open>a = b\<close> returns with every counter as before (that of \<open>c\<close>
  is \<open>n\<close> again), with no deallocation, with \<open>get\<close> of \<open>b\<close> unchanged and \<open>get\<close>
  of \<open>a\<close> equal to \<open>get\<close> of \<open>b\<close>. When the two held the same object before, as
  instances that came to share a control block by copying do, \<open>get\<close> of \<open>a\<close> is
  unchanged too and the whole heap is the one before the assignment.
\<close>

theorem copy_assign_shared:
  assumes "a \<noteq> b" and "insts h a = Some sa" and "insts h b = Some sb"
    and "ref_count sa = Addr c" and "ref_count sb = Addr c"
    and "counters h c = Some n" and "1 < n"
  shows "\<exists>h1 h'. release D h a = Returns h1 \<and> counters h1 c = Some (n - 1) \<and> 1 \<le> n - 1 \<and>
           trace h1 = trace h \<and>
           copy_assign D h a b = Returns h' \<and> counters h' = counters h \<and> trace h' = trace h \<and>
           use_count h' a = Some n \<and> use_count h' b = Some n \<and>
           get h' b = get h b \<and> get h' a = get h b \<and>
           (get h a = get h b \<longrightarrow> h' = h)"
proof -
  from \<open>1 < n\<close> have n1: "n \<noteq> 1" by auto
  let ?h1 = "h\<lparr>counters := (counters h)(c \<mapsto> n - 1)\<rparr>"
  let ?h' = "h\<lparr>insts := (insts h)(a \<mapsto> sb)\<rparr>"
  have rel: "release D h a = Returns ?h1"
    using assms(2,4,6) n1 by (rule release_keep)
  have cnt: "(counters h)(c \<mapsto> n) = counters h"
    using assms(6) by (rule map_upd_triv)
  have "copy_assign D h a b =
          Returns (?h1\<lparr>insts := (insts ?h1)(a \<mapsto> sb),
                       counters := (counters ?h1)(c \<mapsto> n - 1 + 1)\<rparr>)"
    using assms(1) rel _ _ assms(5)
    by (rule copy_assign_after(2)) (simp_all add: assms(2,3))
  then have ca: "copy_assign D h a b = Returns ?h'"
    using cnt by simp
  have ge: "1 \<le> n - 1"
    using \<open>1 < n\<close> by (rule less_imp_less_eq_dec)
  have obs: "use_count ?h' a = Some n \<and> use_count ?h' b = Some n \<and>
             get ?h' b = get h b \<and> get ?h' a = get h b"
    using assms by (simp add: use_count_def get_def)
  have same: "?h' = h" if "get h a = get h b"
  proof -
    from that assms(2,3) have "ptr sa = ptr sb" by (simp add: get_def)
    with assms(4,5) have "sb = sa" by (cases sa, cases sb) simp
    with assms(2) have "(insts h)(a \<mapsto> sb) = insts h" by (simp add: map_upd_triv)
    then show ?thesis by simp
  qed
  show ?thesis
    using rel ca ge obs same by simp
qed

theorem copy_assign_shared_witness:
  "copy_assign trivial_dtor shared_heap 1 2 = Returns shared_heap \<and>
   use_count shared_heap 1 = Some 2 \<and> get shared_heap 1 = get shared_heap 2 \<and>
   trace shared_heap = []"
proof -
  have i: "insts shared_heap 1 = Some \<lparr>ptr = Addr 100, ref_count = Addr 200\<rparr>"
    and j: "insts shared_heap 2 = Some \<lparr>ptr = Addr 100, ref_count = Addr 200\<rparr>"
    and c: "counters shared_heap 200 = Some 2"
    and t: "trace shared_heap = []"
    by (simp_all add: shared_heap_def)
  have g: "get shared_heap 1 = get shared_heap 2"
    using i j by (simp add: get_def)
  have u: "use_count shared_heap 1 = Some 2"
    using i c by (simp add: use_count_def)
  have r: "ref_count \<lparr>ptr = Addr 100, ref_count = Addr 200\<rparr> = Addr 200" by simp
  have n: "(1::nat) \<noteq> 2" and l: "(1::size_t) < 2" by simp_all
  from copy_assign_shared [OF n i j r r c l, of trivial_dtor] g
  have "copy_assign trivial_dtor shared_heap 1 2 = Returns shared_heap" by auto
  with u g t show ?thesis by simp
qed

subsection \<open>Copying\<close>

text \<open>
  Claim C6, as stated, fails for copy assignment into an instance that already shares the
  source's control block: with the instances at 1 and 2 sharing a block whose counter is 2,
  the assignment of 1 to 2 returns the same heap, so the count is still 2 and not 3.
\<close>

theorem shared_copy_count_counterexample:
  "use_count shared_heap 1 = Some 2 \<and>
   copy_assign trivial_dtor shared_heap 2 1 = Returns shared_heap \<and>
   use_count shared_heap 1 \<noteq> Some (2 + 1) \<and> use_count shared_heap 2 \<noteq> Some (2 + 1)"
  by (simp add: copy_assign_def op_defs shared_heap_def use_count_def)

text \<open>
  Claim C6, amended. Let \<open>a\<close> own an object through the live control block \<open>c\<close> with
  counter \<open>n\<close>, so that \<open>use_count\<close> of \<open>a\<close> is \<open>n\<close>, and let \<open>b\<close> be another
  instance. After copy construction of \<open>b\<close> from \<open>a\<close>, \<open>use_count\<close> of \<open>a\<close> and of
  \<open>b\<close> are both \<open>n + 1\<close> (in \<open>size_t\<close> arithmetic) and \<open>get\<close> of both is the
  object of \<open>a\<close>. The same holds after copy assignment of \<open>a\<close> to \<open>b\<close> when \<open>b\<close>
  does not already reference \<open>c\<close> and is null, or one of several owners of another
  control block, or the last owner of another object whose destruction leaves \<open>a\<close>,
  \<open>b\<close> and the counter of \<open>c\<close> as they are (so \<open>a\<close> is not stored inside that
  object). In each case the heap after the operation is given in full: the counter of
  \<open>c\<close> is incremented, \<open>b\<close> holds what \<open>a\<close> holds, and the previous resource of
  \<open>b\<close> has been released.
\<close>

theorem copy_spec:
  assumes "insts h a = Some sa" and "ref_count sa = Addr c" and "counters h c = Some n"
    and "b \<noteq> a"
  shows "use_count h a = Some n \<and>
         (\<exists>h'. copy_construct h b a = Returns h' \<and>
            h' = h\<lparr>insts := (insts h)(b \<mapsto> sa), counters := (counters h)(c \<mapsto> n + 1)\<rparr> \<and>
            both_hold h' a b (n + 1) (ptr sa)) \<and>
         (\<forall>sb. insts h b = Some sb \<and> ref_count sb = Null \<longrightarrow>
            (\<exists>h'. copy_assign D h b a = Returns h' \<and>
               h' = h\<lparr>insts := (insts h)(b \<mapsto> sa), counters := (counters h)(c \<mapsto> n + 1)\<rparr> \<and>
               both_hold h' a b (n + 1) (ptr sa))) \<and>
         (\<forall>sb cb m. insts h b = Some sb \<and> ref_count sb = Addr cb \<and> cb \<noteq> c \<and>
               counters h cb = Some m \<and> m \<noteq> 1 \<longrightarrow>
            (\<exists>h'. copy_assign D h b a = Returns h' \<and>
               h' = h\<lparr>insts := (insts h)(b \<mapsto> sa),
                      counters := (counters h)(cb \<mapsto> m - 1, c \<mapsto> n + 1)\<rparr> \<and>
               both_hold h' a b (n + 1) (ptr sa))) \<and>
         (\<forall>sb cb pb h2. insts h b = Some sb \<and> ref_count sb = Addr cb \<and> cb \<noteq> c \<and>
               counters h cb = Some 1 \<and> ptr sb = Addr pb \<and>
               D pb (h\<lparr>counters := (counters h)(cb \<mapsto> 0)\<rparr>) = Some h2 \<and>
               insts h2 b = Some sb \<and> cb \<in> dom (counters h2) \<and>
               insts h2 a = Some sa \<and> counters h2 c = Some n \<longrightarrow>
            (\<exists>h'. copy_assign D h b a = Returns h' \<and>
               h' = h2\<lparr>insts := (insts h2)(b \<mapsto> sa),
                       counters := (counters h2)(cb := None, c \<mapsto> n + 1),
                       trace := trace h2 @ [Delete_Object pb, Delete_Counter cb]\<rparr> \<and>
               both_hold h' a b (n + 1) (ptr sa)))"
proof -
  have pre: "use_count h a = Some n"
    using assms by (simp add: use_count_def)
  have cc: "copy_construct h b a =
              Returns (h\<lparr>insts := (insts h)(b \<mapsto> sa), counters := (counters h)(c \<mapsto> n + 1)\<rparr>)"
    using assms by (cases sa) (simp add: copy_construct_def fetch_add_def Let_def)
  have nl: "copy_assign D h b a =
              Returns (h\<lparr>insts := (insts h)(b \<mapsto> sa), counters := (counters h)(c \<mapsto> n + 1)\<rparr>)"
    if sb: "insts h b = Some sb" and r: "ref_count sb = Null" for sb
    using assms(4) release_null [OF sb r] sb assms(1,2,3)
    by (rule copy_assign_after(2))
  have sh: "copy_assign D h b a =
              Returns (h\<lparr>insts := (insts h)(b \<mapsto> sa),
                         counters := (counters h)(cb \<mapsto> m - 1, c \<mapsto> n + 1)\<rparr>)"
    if sb: "insts h b = Some sb" and r: "ref_count sb = Addr cb" and ne: "cb \<noteq> c"
      and m: "counters h cb = Some m" and m1: "m \<noteq> 1" for sb cb m
  proof -
    let ?h1 = "h\<lparr>counters := (counters h)(cb \<mapsto> m - 1)\<rparr>"
    have "copy_assign D h b a =
            Returns (?h1\<lparr>insts := (insts ?h1)(b \<mapsto> sa), counters := (counters ?h1)(c \<mapsto> n + 1)\<rparr>)"
      using assms(4) release_keep [OF sb r m m1] _ _ assms(2)
      by (rule copy_assign_after(2)) (simp_all add: sb assms(1,3) ne [symmetric])
    then show ?thesis by simp
  qed
  have la: "copy_assign D h b a =
              Returns (h2\<lparr>insts := (insts h2)(b \<mapsto> sa),
                          counters := (counters h2)(cb := None, c \<mapsto> n + 1),
                          trace := trace h2 @ [Delete_Object pb, Delete_Counter cb]\<rparr>)"
    if sb: "insts h b = Some sb" and r: "ref_count sb = Addr cb" and ne: "cb \<noteq> c"
      and m: "counters h cb = Some 1" and pb: "ptr sb = Addr pb"
      and d: "D pb (h\<lparr>counters := (counters h)(cb \<mapsto> 0)\<rparr>) = Some h2"
      and b2: "insts h2 b = Some sb" and live: "cb \<in> dom (counters h2)"
      and a2: "insts h2 a = Some sa" and c2: "counters h2 c = Some n" for sb cb pb h2
  proof -
    let ?h1 = "h2\<lparr>counters := (counters h2)(cb := None),
                   trace := trace h2 @ [Delete_Object pb, Delete_Counter cb]\<rparr>"
    have "copy_assign D h b a =
            Returns (?h1\<lparr>insts := (insts ?h1)(b \<mapsto> sa), counters := (counters ?h1)(c \<mapsto> n + 1)\<rparr>)"
      using assms(4) release_last [where D = D, OF sb r m pb d b2 live] _ _ assms(2)
      by (rule copy_assign_after(2)) (simp_all add: b2 a2 c2 ne [symmetric])
    then show ?thesis by simp
  qed
  have cc': "\<exists>h'. copy_construct h b a = Returns h' \<and>
            h' = h\<lparr>insts := (insts h)(b \<mapsto> sa), counters := (counters h)(c \<mapsto> n + 1)\<rparr> \<and>
            both_hold h' a b (n + 1) (ptr sa)"
    using cc assms by (simp add: use_count_def get_def)
  have nl': "\<exists>h'. copy_assign D h b a = Returns h' \<and>
               h' = h\<lparr>insts := (insts h)(b \<mapsto> sa), counters := (counters h)(c \<mapsto> n + 1)\<rparr> \<and>
               both_hold h' a b (n + 1) (ptr sa)"
    if "insts h b = Some sb \<and> ref_count sb = Null" for sb
    using nl [of sb] that assms by (simp add: use_count_def get_def)
  have sh': "\<exists>h'. copy_assign D h b a = Returns h' \<and>
               h' = h\<lparr>insts := (insts h)(b \<mapsto> sa),
                      counters := (counters h)(cb \<mapsto> m - 1, c \<mapsto> n + 1)\<rparr> \<and>
               both_hold h' a b (n + 1) (ptr sa)"
    if "insts h b = Some sb \<and> ref_count sb = Addr cb \<and> cb \<noteq> c \<and>
               counters h cb = Some m \<and> m \<noteq> 1" for sb cb m
    using sh [of sb cb m] that assms by (simp add: use_count_def get_def)
  have la': "\<exists>h'. copy_assign D h b a = Returns h' \<and>
               h' = h2\<lparr>insts := (insts h2)(b \<mapsto> sa),
                       counters := (counters h2)(cb := None, c \<mapsto> n + 1),
                       trace := trace h2 @ [Delete_Object pb, Delete_Counter cb]\<rparr> \<and>
               both_hold h' a b (n + 1) (ptr sa)"
    if "insts h b = Some sb \<and> ref_count sb = Addr cb \<and> cb \<noteq> c \<and>
               counters h cb = Some 1 \<and> ptr sb = Addr pb \<and>
               D pb (h\<lparr>counters := (counters h)(cb \<mapsto> 0)\<rparr>) = Some h2 \<and>
               insts h2 b = Some sb \<and> cb \<in> dom (counters h2) \<and>
               insts h2 a = Some sa \<and> counters h2 c = Some n" for sb cb pb h2
    using la [of sb cb pb h2] that assms(2,4) by (simp add: use_count_def get_def)
  show ?thesis
    using pre cc' nl' sh' la' by blast
qed

theorem copy_spec_witness:
  "(\<exists>h'. copy_construct two_heap 3 1 = Returns h' \<and>
      use_count h' 1 = Some 2 \<and> use_count h' 3 = Some 2 \<and>
      get h' 1 = Some (Addr 100) \<and> get h' 3 = Some (Addr 100)) \<and>
   (\<exists>h'. copy_assign trivial_dtor two_heap 2 1 = Returns h' \<and>
      use_count h' 1 = Some 2 \<and> use_count h' 2 = Some 2 \<and>
      get h' 1 = Some (Addr 100) \<and> get h' 2 = Some (Addr 100) \<and>
      trace h' = [Delete_Object 101, Delete_Counter 201])"
proof -
  have i: "insts two_heap 1 = Some \<lparr>ptr = Addr 100, ref_count = Addr 200\<rparr>"
    and c: "counters two_heap 200 = Some 1"
    and j: "insts two_heap 2 = Some \<lparr>ptr = Addr 101, ref_count = Addr 201\<rparr>"
    and d: "counters two_heap 201 = Some 1"
    and t: "trace two_heap = []"
    by (simp_all add: two_heap_def)
  have r: "ref_count \<lparr>ptr = Addr 100, ref_count = Addr 200\<rparr> = Addr 200" by simp
  have n3: "(3::nat) \<noteq> 1" and n2: "(2::nat) \<noteq> 1" by simp_all
  from copy_spec [OF i r c n3, of trivial_dtor] have
    "\<exists>h'. copy_construct two_heap 3 1 = Returns h' \<and>
      use_count h' 1 = Some 2 \<and> use_count h' 3 = Some 2 \<and>
      get h' 1 = Some (Addr 100) \<and> get h' 3 = Some (Addr 100)"
    by simp
  moreover
  let ?h2 = "two_heap\<lparr>counters := (counters two_heap)(201 \<mapsto> 0)\<rparr>"
  have p: "insts two_heap 2 = Some \<lparr>ptr = Addr 101, ref_count = Addr 201\<rparr> \<and>
      ref_count \<lparr>ptr = Addr 101, ref_count = Addr 201\<rparr> = Addr 201 \<and> (201::nat) \<noteq> 200 \<and>
      counters two_heap 201 = Some 1 \<and> ptr \<lparr>ptr = Addr 101, ref_count = Addr 201\<rparr> = Addr 101 \<and>
      trivial_dtor 101 ?h2 = Some ?h2 \<and>
      insts ?h2 2 = Some \<lparr>ptr = Addr 101, ref_count = Addr 201\<rparr> \<and> 201 \<in> dom (counters ?h2) \<and>
      insts ?h2 1 = Some \<lparr>ptr = Addr 100, ref_count = Addr 200\<rparr> \<and> counters ?h2 200 = Some 1"
    using i j c d by (simp add: trivial_dtor_def)
  from copy_spec [OF i r c n2, of trivial_dtor, THEN conjunct2, THEN conjunct2, THEN conjunct2,
      THEN conjunct2, rule_format, OF p]
  have "\<exists>h'. copy_assign trivial_dtor two_heap 2 1 = Returns h' \<and>
      use_count h' 1 = Some 2 \<and> use_count h' 2 = Some 2 \<and>
      get h' 1 = Some (Addr 100) \<and> get h' 2 = Some (Addr 100) \<and>
      trace h' = [Delete_Object 101, Delete_Counter 201]"
    using t by auto
  ultimately show ?thesis by blast
qed

subsection \<open>Moving\<close>




subsection \<open>Reset\<close>

text \<open>
  Claim C8. Let the instance at \<open>this\<close> exist. \<open>reset\<close> first releases what the
  instance owns: nothing for a null instance; for one of several owners the counter is
  decremented and nothing else changes; for the last owner of the object at \<open>p1\<close> the
  object is destroyed and the control block freed, while the instance still holds \<open>p1\<close>,
  so the destruction precedes the adoption of the new pointer. From the heap so released,
  \<open>reset\<close> does what construction from the raw pointer \<open>p\<close> does there at the same
  address, whenever that construction returns (\<open>p\<close> null, or the allocation succeeds):
  with \<open>p\<close> non-null and the allocator handing out \<open>c'\<close>, the instance holds \<open>p\<close>
  and \<open>c'\<close>, the counter of \<open>c'\<close> is 1 and \<open>use_count\<close> is 1; with \<open>p\<close> null the
  instance is (null, null) and \<open>use_count\<close> is 0; nothing else changes. When the
  allocation fails, \<open>reset\<close> ends in the allocation failure, as the construction does.
\<close>

theorem reset_spec:
  assumes "insts h this = Some s"
  shows "(ref_count s = Null \<longrightarrow>
            release D h this = Returns h \<and>
            (p = Null \<or> al \<noteq> None \<longrightarrow> reset D h this p al = shared_ptr_raw h this p al)) \<and>
         (\<forall>c n. ref_count s = Addr c \<and> counters h c = Some n \<and> n \<noteq> 1 \<longrightarrow>
            release D h this = Returns (h\<lparr>counters := (counters h)(c \<mapsto> n - 1)\<rparr>) \<and>
            (p = Null \<or> al \<noteq> None \<longrightarrow>
               reset D h this p al =
                 shared_ptr_raw (h\<lparr>counters := (counters h)(c \<mapsto> n - 1)\<rparr>) this p al)) \<and>
         (\<forall>c p1 h2. ref_count s = Addr c \<and> counters h c = Some 1 \<and> ptr s = Addr p1 \<and>
               D p1 (h\<lparr>counters := (counters h)(c \<mapsto> 0)\<rparr>) = Some h2 \<and>
               insts h2 this = Some s \<and> c \<in> dom (counters h2) \<longrightarrow>
            release D h this =
              Returns (h2\<lparr>counters := (counters h2)(c := None),
                          trace := trace h2 @ [Delete_Object p1, Delete_Counter c]\<rparr>) \<and>
            get (h2\<lparr>counters := (counters h2)(c := None),
                    trace := trace h2 @ [Delete_Object p1, Delete_Counter c]\<rparr>) this
              = Some (Addr p1) \<and>
            (p = Null \<or> al \<noteq> None \<longrightarrow>
               reset D h this p al =
                 shared_ptr_raw (h2\<lparr>counters := (counters h2)(c := None),
                                    trace := trace h2 @ [Delete_Object p1, Delete_Counter c]\<rparr>)
                   this p al)) \<and>
         (\<forall>g c'. p \<noteq> Null \<and> al = Some c' \<longrightarrow>
            (\<exists>h'. shared_ptr_raw g this p al = Returns h' \<and>
               insts h' = (insts g)(this \<mapsto> \<lparr>ptr = p, ref_count = Addr c'\<rparr>) \<and>
               counters h' = (counters g)(c' \<mapsto> 1) \<and> trace h' = trace g \<and>
               use_count h' this = Some 1 \<and> get h' this = Some p)) \<and>
         (\<forall>g. p = Null \<longrightarrow>
            (\<exists>h'. shared_ptr_raw g this p al = Returns h' \<and>
               insts h' = (insts g)(this \<mapsto> \<lparr>ptr = Null, ref_count = Null\<rparr>) \<and>
               counters h' = counters g \<and> trace h' = trace g \<and>
               use_count h' this = Some 0 \<and> get h' this = Some Null)) \<and>
         (\<forall>h1. p \<noteq> Null \<and> al = None \<and> release D h this = Returns h1 \<and>
               insts h1 this \<noteq> None \<longrightarrow>
            (\<exists>g. reset D h this p al = Bad_Alloc g) \<and>
            shared_ptr_raw h1 this p al = Bad_Alloc h1)"
proof -
  have nl: "release D h this = Returns h \<and>
            (p = Null \<or> al \<noteq> None \<longrightarrow> reset D h this p al = shared_ptr_raw h this p al)"
    if r: "ref_count s = Null"
    using release_null [OF assms r] reset_after(1) [OF release_null [OF assms r] assms]
    by blast
  have sh: "release D h this = Returns (h\<lparr>counters := (counters h)(c \<mapsto> n - 1)\<rparr>) \<and>
            (p = Null \<or> al \<noteq> None \<longrightarrow>
               reset D h this p al =
                 shared_ptr_raw (h\<lparr>counters := (counters h)(c \<mapsto> n - 1)\<rparr>) this p al)"
    if "ref_count s = Addr c \<and> counters h c = Some n \<and> n \<noteq> 1" for c n
  proof -
    from that have r: "ref_count s = Addr c" and cn: "counters h c = Some n" and n1: "n \<noteq> 1"
      by simp_all
    let ?h1 = "h\<lparr>counters := (counters h)(c \<mapsto> n - 1)\<rparr>"
    have rel: "release D h this = Returns ?h1"
      using assms r cn n1 by (rule release_keep)
    have i: "insts ?h1 this = Some s" using assms by simp
    from rel reset_after(1) [OF rel i] show ?thesis by blast
  qed
  have la: "release D h this =
              Returns (h2\<lparr>counters := (counters h2)(c := None),
                          trace := trace h2 @ [Delete_Object p1, Delete_Counter c]\<rparr>) \<and>
            get (h2\<lparr>counters := (counters h2)(c := None),
                    trace := trace h2 @ [Delete_Object p1, Delete_Counter c]\<rparr>) this
              = Some (Addr p1) \<and>
            (p = Null \<or> al \<noteq> None \<longrightarrow>
               reset D h this p al =
                 shared_ptr_raw (h2\<lparr>counters := (counters h2)(c := None),
                                    trace := trace h2 @ [Delete_Object p1, Delete_Counter c]\<rparr>)
                   this p al)"
    if "ref_count s = Addr c \<and> counters h c = Some 1 \<and> ptr s = Addr p1 \<and>
               D p1 (h\<lparr>counters := (counters h)(c \<mapsto> 0)\<rparr>) = Some h2 \<and>
               insts h2 this = Some s \<and> c \<in> dom (counters h2)" for c p1 h2
  proof -
    from that have r: "ref_count s = Addr c" and cn: "counters h c = Some 1"
      and p1: "ptr s = Addr p1" and d: "D p1 (h\<lparr>counters := (counters h)(c \<mapsto> 0)\<rparr>) = Some h2"
      and i2: "insts h2 this = Some s" and live: "c \<in> dom (counters h2)"
      by simp_all
    let ?h1 = "h2\<lparr>counters := (counters h2)(c := None),
                   trace := trace h2 @ [Delete_Object p1, Delete_Counter c]\<rparr>"
    have rel: "release D h this = Returns ?h1"
      using release_last [where D = D, OF assms r cn p1 d i2 live] .
    have i: "insts ?h1 this = Some s" using i2 by simp
    have g: "get ?h1 this = Some (Addr p1)" using i2 p1 by (simp add: get_def)
    from rel g reset_after(1) [OF rel i] show ?thesis by blast
  qed
  have raw1: "\<exists>h'. shared_ptr_raw g this p al = Returns h' \<and>
               insts h' = (insts g)(this \<mapsto> \<lparr>ptr = p, ref_count = Addr c'\<rparr>) \<and>
               counters h' = (counters g)(c' \<mapsto> 1) \<and> trace h' = trace g \<and>
               use_count h' this = Some 1 \<and> get h' this = Some p"
    if "p \<noteq> Null \<and> al = Some c'" for g c'
    using that by (simp add: shared_ptr_raw_def new_counter_def use_count_def get_def)
  have raw0: "\<exists>h'. shared_ptr_raw g this p al = Returns h' \<and>
               insts h' = (insts g)(this \<mapsto> \<lparr>ptr = Null, ref_count = Null\<rparr>) \<and>
               counters h' = counters g \<and> trace h' = trace g \<and>
               use_count h' this = Some 0 \<and> get h' this = Some Null"
    if "p = Null" for g
    using that by (simp add: shared_ptr_raw_def use_count_def get_def)
  have fail: "(\<exists>g. reset D h this p al = Bad_Alloc g) \<and>
            shared_ptr_raw h1 this p al = Bad_Alloc h1"
    if "p \<noteq> Null \<and> al = None \<and> release D h this = Returns h1 \<and> insts h1 this \<noteq> None"
    for h1
  proof -
    from that obtain t where rel: "release D h this = Returns h1" and t: "insts h1 this = Some t"
      and p: "p \<noteq> Null" and al: "al = None" by auto
    from reset_after(2) [OF rel t p] al p show ?thesis
      by (simp add: shared_ptr_raw_def new_counter_def)
  qed
  show ?thesis
    using nl sh la raw1 raw0 fail by blast
qed

theorem reset_spec_witness:
  "(\<exists>h'. reset trivial_dtor sole_heap 1 (Addr 5) (Some 7) = Returns h' \<and>
      use_count h' 1 = Some 1 \<and> get h' 1 = Some (Addr 5) \<and> counters h' 200 = None \<and>
      trace h' = [Delete_Object 100, Delete_Counter 200]) \<and>
   (\<exists>h'. reset trivial_dtor shared_heap 1 (Addr 5) (Some 7) = Returns h' \<and>
      use_count h' 1 = Some 1 \<and> get h' 1 = Some (Addr 5) \<and> counters h' 200 = Some 1 \<and>
      use_count h' 2 = Some 1 \<and> trace h' = []) \<and>
   (\<exists>h'. reset trivial_dtor sole_heap 1 Null None = Returns h' \<and>
      use_count h' 1 = Some 0 \<and> get h' 1 = Some Null \<and>
      trace h' = [Delete_Object 100, Delete_Counter 200])"
proof -
  let ?s = "\<lparr>ptr = Addr 100, ref_count = Addr 200\<rparr>"
  have i: "insts sole_heap 1 = Some ?s"
    and c: "counters sole_heap 200 = Some 1"
    and t: "trace sole_heap = []"
    by (simp_all add: sole_heap_def)
  have j: "insts shared_heap 1 = Some ?s"
    and j2: "insts shared_heap 2 = Some ?s"
    and d: "counters shared_heap 200 = Some 2"
    and u: "trace shared_heap = []"
    by (simp_all add: shared_heap_def)
  let ?h2 = "sole_heap\<lparr>counters := (counters sole_heap)(200 \<mapsto> 0)\<rparr>"
  let ?h1 = "?h2\<lparr>counters := (counters ?h2)(200 := None),
                 trace := trace ?h2 @ [Delete_Object 100, Delete_Counter 200]\<rparr>"
  have p: "ref_count ?s = Addr 200 \<and> counters sole_heap 200 = Some 1 \<and> ptr ?s = Addr 100 \<and>
      trivial_dtor 100 ?h2 = Some ?h2 \<and> insts ?h2 1 = Some ?s \<and> 200 \<in> dom (counters ?h2)"
    using i c by (simp add: trivial_dtor_def)
  have q: "ref_count ?s = Addr 200 \<and> counters shared_heap 200 = Some 2 \<and> (2::size_t) \<noteq> 1"
    using d by simp
  note sole = reset_spec [OF i, of trivial_dtor, THEN conjunct2, THEN conjunct2, THEN conjunct1,
      rule_format, OF p]
  note shared = reset_spec [OF j, of trivial_dtor, THEN conjunct2, THEN conjunct1,
      rule_format, OF q]
  have a: "reset trivial_dtor sole_heap 1 (Addr 5) (Some 7) = shared_ptr_raw ?h1 1 (Addr 5) (Some 7)"
    using sole [of "Addr 5" "Some 7"] by simp
  have a0: "reset trivial_dtor sole_heap 1 Null None = shared_ptr_raw ?h1 1 Null None"
    using sole [of Null None] by simp
  have b: "reset trivial_dtor shared_heap 1 (Addr 5) (Some 7) =
        shared_ptr_raw (shared_heap\<lparr>counters := (counters shared_heap)(200 \<mapsto> 2 - 1)\<rparr>)
          1 (Addr 5) (Some 7)"
    using shared [of "Addr 5" "Some 7"] by simp
  have "\<exists>h'. reset trivial_dtor sole_heap 1 (Addr 5) (Some 7) = Returns h' \<and>
      use_count h' 1 = Some 1 \<and> get h' 1 = Some (Addr 5) \<and> counters h' 200 = None \<and>
      trace h' = [Delete_Object 100, Delete_Counter 200]"
    unfolding a using t
    by (simp add: shared_ptr_raw_def new_counter_def use_count_def get_def)
  moreover have "\<exists>h'. reset trivial_dtor shared_heap 1 (Addr 5) (Some 7) = Returns h' \<and>
      use_count h' 1 = Some 1 \<and> get h' 1 = Some (Addr 5) \<and> counters h' 200 = Some 1 \<and>
      use_count h' 2 = Some 1 \<and> trace h' = []"
    unfolding b using u j2
    by (simp add: shared_ptr_raw_def new_counter_def use_count_def get_def)
  moreover have "\<exists>h'. reset trivial_dtor sole_heap 1 Null None = Returns h' \<and>
      use_count h' 1 = Some 0 \<and> get h' 1 = Some Null \<and>
      trace h' = [Delete_Object 100, Delete_Counter 200]"
    unfolding a0 using t
    by (simp add: shared_ptr_raw_def use_count_def get_def)
  ultimately show ?thesis by blast
qed

subsection \<open>Failure to allocate the control block\<close>

text \<open>
  Claim C3, as stated, fails: when \<open>new\<close> throws in the constructor from the raw pointer
  100, the heap at the throw is the heap before the call, with no deallocation in its
  trace; and a \<open>reset\<close> of a null instance to the raw pointer 5 ends at the throw with,
  again, nothing deallocated. The object passed in is not destroyed.
\<close>

theorem alloc_failure_leak_counterexample:
  "shared_ptr_raw empty_heap 1 (Addr 100) None = Bad_Alloc empty_heap \<and>
   trace empty_heap = [] \<and>
   reset trivial_dtor null_heap 1 (Addr 5) None = Bad_Alloc torn_heap \<and>
   trace torn_heap = []"
  by (auto simp add: shared_ptr_raw_def reset_def op_defs null_heap_def empty_heap_def
      torn_heap_def)

text \<open>
  Claim C3, amended. When the allocation of the control block fails for a non-null \<open>p\<close>,
  the failure reaches the caller and nothing is deallocated on its account. Construction
  from \<open>p\<close> ends with the heap it started from. \<open>reset\<close> ends with the counters, the
  deallocations and every other instance as its \<open>release\<close> left them, and the instance
  being reset still there: for a null instance nothing has changed; for one of several
  owners only the counter has been decremented; for the last owner the previously owned
  object and its control block have been deallocated and nothing after them. What the
  instance being reset holds at that point is not part of the claim.
\<close>

theorem alloc_failure:
  assumes "p \<noteq> Null"
  shows "shared_ptr_raw h this p None = Bad_Alloc h \<and>
         (\<forall>s. insts h a = Some s \<and> ref_count s = Null \<longrightarrow>
            (\<exists>h'. reset D h a p None = Bad_Alloc h' \<and>
               counters h' = counters h \<and> trace h' = trace h \<and>
               (\<forall>b. b \<noteq> a \<longrightarrow> insts h' b = insts h b) \<and> a \<in> dom (insts h'))) \<and>
         (\<forall>s c n. insts h a = Some s \<and> ref_count s = Addr c \<and> counters h c = Some n \<and>
               n \<noteq> 1 \<longrightarrow>
            (\<exists>h'. reset D h a p None = Bad_Alloc h' \<and>
               counters h' = (counters h)(c \<mapsto> n - 1) \<and> trace h' = trace h \<and>
               (\<forall>b. b \<noteq> a \<longrightarrow> insts h' b = insts h b) \<and> a \<in> dom (insts h'))) \<and>
         (\<forall>s c p1 h2. insts h a = Some s \<and> ref_count s = Addr c \<and> counters h c = Some 1 \<and>
               ptr s = Addr p1 \<and> D p1 (h\<lparr>counters := (counters h)(c \<mapsto> 0)\<rparr>) = Some h2 \<and>
               insts h2 a = Some s \<and> c \<in> dom (counters h2) \<longrightarrow>
            (\<exists>h'. reset D h a p None = Bad_Alloc h' \<and>
               counters h' = (counters h2)(c := None) \<and>
               trace h' = trace h2 @ [Delete_Object p1, Delete_Counter c] \<and>
               (\<forall>b. b \<noteq> a \<longrightarrow> insts h' b = insts h2 b) \<and> a \<in> dom (insts h')))"
proof -
  have ctor: "shared_ptr_raw h this p None = Bad_Alloc h"
    using assms by (simp add: shared_ptr_raw_def new_counter_def)
  have nl: "\<exists>h'. reset D h a p None = Bad_Alloc h' \<and>
               counters h' = counters h \<and> trace h' = trace h \<and>
               (\<forall>b. b \<noteq> a \<longrightarrow> insts h' b = insts h b) \<and> a \<in> dom (insts h')"
    if "insts h a = Some s \<and> ref_count s = Null" for s
  proof -
    from that have s: "insts h a = Some s" and r: "ref_count s = Null" by simp_all
    from reset_after(2) [OF release_null [OF s r] s assms] show ?thesis by simp
  qed
  have sh: "\<exists>h'. reset D h a p None = Bad_Alloc h' \<and>
               counters h' = (counters h)(c \<mapsto> n - 1) \<and> trace h' = trace h \<and>
               (\<forall>b. b \<noteq> a \<longrightarrow> insts h' b = insts h b) \<and> a \<in> dom (insts h')"
    if "insts h a = Some s \<and> ref_count s = Addr c \<and> counters h c = Some n \<and> n \<noteq> 1"
    for s c n
  proof -
    from that have s: "insts h a = Some s" and r: "ref_count s = Addr c"
      and cn: "counters h c = Some n" and n1: "n \<noteq> 1" by simp_all
    let ?h1 = "h\<lparr>counters := (counters h)(c \<mapsto> n - 1)\<rparr>"
    have i: "insts ?h1 a = Some s" using s by simp
    from reset_after(2) [OF release_keep [OF s r cn n1] i assms] show ?thesis by simp
  qed
  have la: "\<exists>h'. reset D h a p None = Bad_Alloc h' \<and>
               counters h' = (counters h2)(c := None) \<and>
               trace h' = trace h2 @ [Delete_Object p1, Delete_Counter c] \<and>
               (\<forall>b. b \<noteq> a \<longrightarrow> insts h' b = insts h2 b) \<and> a \<in> dom (insts h')"
    if "insts h a = Some s \<and> ref_count s = Addr c \<and> counters h c = Some 1 \<and>
               ptr s = Addr p1 \<and> D p1 (h\<lparr>counters := (counters h)(c \<mapsto> 0)\<rparr>) = Some h2 \<and>
               insts h2 a = Some s \<and> c \<in> dom (counters h2)" for s c p1 h2
  proof -
    from that have s: "insts h a = Some s" and r: "ref_count s = Addr c"
      and cn: "counters h c = Some 1" and p1: "ptr s = Addr p1"
      and d: "D p1 (h\<lparr>counters := (counters h)(c \<mapsto> 0)\<rparr>) = Some h2"
      and i2: "insts h2 a = Some s" and live: "c \<in> dom (counters h2)" by simp_all
    let ?h1 = "h2\<lparr>counters := (counters h2)(c := None),
                   trace := trace h2 @ [Delete_Object p1, Delete_Counter c]\<rparr>"
    have i: "insts ?h1 a = Some s" using i2 by simp
    from reset_after(2) [OF release_last [where D = D, OF s r cn p1 d i2 live] i assms]
    show ?thesis by simp
  qed
  show ?thesis using ctor nl sh la by blast
qed

theorem alloc_failure_witness:
  "Addr 5 \<noteq> Null \<and>
   shared_ptr_raw sole_heap 2 (Addr 5) None = Bad_Alloc sole_heap \<and>
   (\<exists>h'. reset trivial_dtor sole_heap 1 (Addr 5) None = Bad_Alloc h' \<and>
      counters h' = Map.empty \<and> trace h' = [Delete_Object 100, Delete_Counter 200] \<and>
      Delete_Object 5 \<notin> set (trace h')) \<and>
   (\<exists>h'. reset trivial_dtor shared_heap 1 (Addr 5) None = Bad_Alloc h' \<and>
      counters h' 200 = Some 1 \<and> trace h' = [] \<and>
      insts h' 2 = Some \<lparr>ptr = Addr 100, ref_count = Addr 200\<rparr>)"
proof -
  let ?s = "\<lparr>ptr = Addr 100, ref_count = Addr 200\<rparr>"
  have n: "Addr 5 \<noteq> Null" by simp
  have i: "insts sole_heap 1 = Some ?s"
    and c: "counters sole_heap = [200 \<mapsto> 1]"
    and t: "trace sole_heap = []"
    by (simp_all add: sole_heap_def)
  have j: "insts shared_heap 1 = Some ?s"
    and j2: "insts shared_heap 2 = Some ?s"
    and d: "counters shared_heap 200 = Some 2"
    and u: "trace shared_heap = []"
    by (simp_all add: shared_heap_def)
  let ?h2 = "sole_heap\<lparr>counters := (counters sole_heap)(200 \<mapsto> 0)\<rparr>"
  have p: "insts sole_heap 1 = Some ?s \<and> ref_count ?s = Addr 200 \<and>
      counters sole_heap 200 = Some 1 \<and> ptr ?s = Addr 100 \<and>
      trivial_dtor 100 ?h2 = Some ?h2 \<and> insts ?h2 1 = Some ?s \<and> 200 \<in> dom (counters ?h2)"
    using i c by (simp add: trivial_dtor_def)
  have q: "insts shared_heap 1 = Some ?s \<and> ref_count ?s = Addr 200 \<and>
      counters shared_heap 200 = Some 2 \<and> (2::size_t) \<noteq> 1"
    using j d by simp
  note all = alloc_failure [OF n, of sole_heap 2 1 trivial_dtor]
  note sh = alloc_failure [OF n, of shared_heap 2 1 trivial_dtor]
  from all have a: "shared_ptr_raw sole_heap 2 (Addr 5) None = Bad_Alloc sole_heap"
    by blast
  from all [THEN conjunct2, THEN conjunct2, THEN conjunct2, rule_format, OF p] c t
  have b: "\<exists>h'. reset trivial_dtor sole_heap 1 (Addr 5) None = Bad_Alloc h' \<and>
      counters h' = Map.empty \<and> trace h' = [Delete_Object 100, Delete_Counter 200] \<and>
      Delete_Object 5 \<notin> set (trace h')"
    by auto
  from sh [THEN conjunct2, THEN conjunct2, THEN conjunct1, rule_format, OF q] u j2
  have e: "\<exists>h'. reset trivial_dtor shared_heap 1 (Addr 5) None = Bad_Alloc h' \<and>
      counters h' 200 = Some 1 \<and> trace h' = [] \<and>
      insts h' 2 = Some \<lparr>ptr = Addr 100, ref_count = Addr 200\<rparr>"
    by auto
  from n a b e show ?thesis by blast
qed

subsection \<open>Preservation of the pairing invariant\<close>

text \<open>
  Claim C9, as stated, fails on one path: a \<open>reset\<close> of a null instance to the raw pointer
  5 whose allocation fails ends with the pointer stored and no control block, so the
  instance is no longer paired.
\<close>

theorem reset_failure_unpaired_counterexample:
  "all_paired null_heap \<and>
   reset trivial_dtor null_heap 1 (Addr 5) None = Bad_Alloc torn_heap \<and>
   \<not> all_paired torn_heap"
  by (auto simp add: reset_def op_defs null_heap_def torn_heap_def all_paired_def paired_def)

text \<open>
  Claim C9, amended. From a heap in which every instance is paired, every public operation
  that returns leaves a heap in which every instance is paired: default construction,
  construction from a raw pointer, copy and move construction, copy and move assignment,
  \<open>reset\<close> and destruction. Construction from a raw pointer keeps the invariant also when
  its allocation fails. The destructor of the element type, which the assignments,
  \<open>reset\<close> and destruction may run, is taken to keep the invariant itself; the trivial
  destructor does, and so does every destructor that destroys \<open>shared_ptr\<close> members
  (\<open>dtor_paired_trivial\<close> and \<open>dtor_paired_members\<close> below).
\<close>

theorem paired_preserved:
  assumes "all_paired h" and "dtor_paired D"
  shows "(shared_ptr_default h this = Returns h' \<longrightarrow> all_paired h') \<and>
         (shared_ptr_raw h this p al = Returns h' \<or> shared_ptr_raw h this p al = Bad_Alloc h'
            \<longrightarrow> all_paired h') \<and>
         (copy_construct h this other = Returns h' \<longrightarrow> all_paired h') \<and>
         (copy_assign D h this other = Returns h' \<longrightarrow> all_paired h') \<and>
         (move_construct h this other = Returns h' \<longrightarrow> all_paired h') \<and>
         (move_assign D h this other = Returns h' \<longrightarrow> all_paired h') \<and>
         (reset D h this p al = Returns h' \<longrightarrow> all_paired h') \<and>
         (destructor D h this = Returns h' \<longrightarrow> all_paired h')"
proof -
  have rel: "all_paired h1" if "release D h x = Returns h1" for x h1
    using assms that by (rule release_paired)
  have d: "shared_ptr_default h this = Returns h' \<Longrightarrow> all_paired h'"
    using assms(1)
    by (auto simp: shared_ptr_default_def all_paired_def paired_def split: if_splits)
  have raw: "shared_ptr_raw h this p al = Returns h' \<or> shared_ptr_raw h this p al = Bad_Alloc h'
      \<Longrightarrow> all_paired h'"
    using assms(1)
    by (auto simp: shared_ptr_raw_def new_counter_def all_paired_def paired_def
        split: if_splits option.splits)
  have cc: "copy_construct h this other = Returns h' \<Longrightarrow> all_paired h'"
    using assms(1)
    by (auto simp: copy_construct_def fetch_add_def Let_def all_paired_def paired_def
        split: option.splits pointer.splits if_splits)
  have mc: "move_construct h this other = Returns h' \<Longrightarrow> all_paired h'"
    using assms(1)
    by (auto simp: move_construct_def set_ptr_def set_ref_count_def Let_def all_paired_def
        paired_def split: option.splits if_splits)
  have ca: "copy_assign D h this other = Returns h' \<Longrightarrow> all_paired h'"
  proof (cases "this = other")
    case True
    assume "copy_assign D h this other = Returns h'"
    with True assms(1) show ?thesis by (simp add: copy_assign_def)
  next
    case False
    assume a: "copy_assign D h this other = Returns h'"
    then obtain h1 where r: "release D h this = Returns h1"
      using False by (auto simp: copy_assign_def split: outcome.splits)
    from rel [OF r] a False show ?thesis
      unfolding copy_assign_def r
      by (auto simp: set_ptr_def set_ref_count_def fetch_add_def Let_def all_paired_def
          paired_def split: option.splits pointer.splits if_splits)
  qed
  have ma: "move_assign D h this other = Returns h' \<Longrightarrow> all_paired h'"
  proof (cases "this = other")
    case True
    assume "move_assign D h this other = Returns h'"
    with True assms(1) show ?thesis by (simp add: move_assign_def)
  next
    case False
    assume a: "move_assign D h this other = Returns h'"
    then obtain h1 where r: "release D h this = Returns h1"
      using False by (auto simp: move_assign_def split: outcome.splits)
    from rel [OF r] a False show ?thesis
      unfolding move_assign_def r
      by (auto simp: set_ptr_def set_ref_count_def Let_def all_paired_def
          paired_def split: option.splits if_splits)
  qed
  have rs: "reset D h this p al = Returns h' \<Longrightarrow> all_paired h'"
  proof -
    assume a: "reset D h this p al = Returns h'"
    then obtain h1 where r: "release D h this = Returns h1"
      by (auto simp: reset_def split: outcome.splits)
    from rel [OF r] a show ?thesis
      unfolding reset_def r
      by (auto simp: set_ptr_def set_ref_count_def new_counter_def Let_def all_paired_def
          paired_def split: option.splits if_splits)
  qed
  have ds: "destructor D h this = Returns h' \<Longrightarrow> all_paired h'"
    using assms by (rule destructor_paired)
  show ?thesis using d raw cc mc ca ma rs ds by blast
qed

theorem paired_preserved_witness:
  "all_paired null_heap \<and> dtor_paired trivial_dtor \<and>
   (\<exists>h'. reset trivial_dtor null_heap 1 (Addr 5) (Some 7) = Returns h' \<and> all_paired h' \<and>
      insts h' 1 = Some \<lparr>ptr = Addr 5, ref_count = Addr 7\<rparr>)"
proof -
  have a: "all_paired null_heap"
    by (simp add: all_paired_def null_heap_def paired_def)
  have t: "dtor_paired trivial_dtor"
    by (simp add: dtor_paired_def trivial_dtor_def)
  obtain h' where r: "reset trivial_dtor null_heap 1 (Addr 5) (Some 7) = Returns h'"
    and i: "insts h' 1 = Some \<lparr>ptr = Addr 5, ref_count = Addr 7\<rparr>"
    by (simp add: reset_def op_defs null_heap_def)
  from paired_preserved [OF a t, where this = 1 and h' = h' and p = "Addr 5" and al = "Some 7"] r
  have "all_paired h'" by blast
  with a t r i show ?thesis by blast
qed

subsection \<open>Destructors that destroy \<open>shared_ptr\<close> members\<close>

text \<open>
  The trivial destructor and the destructors of objects with \<open>shared_ptr\<close> members keep
  the pairing invariant.
\<close>

lemma dtor_paired_trivial: "dtor_paired trivial_dtor"
  by (simp add: dtor_paired_def trivial_dtor_def)

lemma destroy_all_paired:
  "dtor_paired D \<Longrightarrow> all_paired h \<Longrightarrow> destroy_all D as h = Some h' \<Longrightarrow> all_paired h'"
proof (induction as arbitrary: h)
  case Nil
  then show ?case by simp
next
  case (Cons a as)
  from Cons.prems(3) obtain h1 where d: "destructor D h a = Returns h1"
    and rest: "destroy_all D as h1 = Some h'"
    by (auto split: outcome.splits)
  from destructor_paired [OF Cons.prems(2) Cons.prems(1) d] have "all_paired h1" .
  from Cons.IH [OF Cons.prems(1) this rest] show ?case .
qed

lemma dtor_paired_members: "dtor_paired (members_dtor k m)"
proof (induction k)
  case 0
  show ?case by (auto simp: dtor_paired_def split: if_splits)
next
  case (Suc k)
  show ?case
    unfolding dtor_paired_def
    using destroy_all_paired [OF Suc] by auto
qed

text \<open>
  Assignment from a member of the object that the destination is the last owner of: in
  the one-node list, \<open>release\<close> of the head destroys the node and with it the instance
  at 2 that the node stores, and returns. The assignment of that instance to the head, by
  copy (\<open>head = head->next\<close>) or by move, then reads an instance whose lifetime has
  ended, which is undefined. The amended claims C6 and C7 do not cover this case.
\<close>

lemma assign_from_member_undefined:
  "release (members_dtor 1 node_members) list_heap 1 =
     Returns \<lparr>insts = [1 \<mapsto> \<lparr>ptr = Addr 100, ref_count = Addr 200\<rparr>], counters = Map.empty,
              trace = [Delete_Object 100, Delete_Counter 200]\<rparr>"
  "copy_assign (members_dtor 1 node_members) list_heap 1 2 = Undefined"
  "move_assign (members_dtor 1 node_members) list_heap 1 2 = Undefined"
  by (auto simp add: copy_assign_def move_assign_def destructor_def op_defs list_heap_def
      node_members_def fun_eq_iff)

end
